theory Spec2Isabelle
  imports Main "HOL-Library.AList"
begin

section \<open>Path and string primitives used by \<open>dashboard.py\<close>\<close>

text \<open>
  Paths are Python \<open>str\<close> values, modelled as \<open>string\<close>. The functions of
  \<open>os.path\<close> are the POSIX ones (\<open>posixpath\<close>): the separator is \<open>/\<close>.
\<close>

definition sep :: char where
  "sep = CHR ''/''"

definition extsep :: char where
  "extsep = CHR ''.''"

text \<open>\<open>posixpath.basename(p)\<close>: \<open>i = p.rfind('/') + 1; return p[i:]\<close>.\<close>

definition basename :: "string \<Rightarrow> string" where
  "basename p = rev (takeWhile (\<lambda>c. c \<noteq> sep) (rev p))"

text \<open>
  The second component of \<open>posixpath.splitext(p)\<close>. The extension starts at the last dot
  of the last path component, unless that component has no dot or only dots in front of its last dot
  (then the extension is empty):
  \<^verbatim>\<open>
    sepIndex = p.rfind(sep); dotIndex = p.rfind(extsep)
    if dotIndex > sepIndex:
        filenameIndex = sepIndex + 1
        while filenameIndex < dotIndex:
            if p[filenameIndex:filenameIndex+1] != extsep:
                return p[:dotIndex], p[dotIndex:]
            filenameIndex += 1
    return p, p[:0]
  \<close>
\<close>

definition splitext_ext :: "string \<Rightarrow> string" where
  "splitext_ext p =
     (let b = basename p;
          suffix = rev (takeWhile (\<lambda>c. c \<noteq> extsep) (rev b));
          stem = take (length b - length suffix - 1) b
      in if extsep \<notin> set b then []
         else if dropWhile (\<lambda>c. c = extsep) stem = [] then []
         else extsep # suffix)"

text \<open>
  \<open>str.lower()\<close> on ASCII text: the letters \<open>A\<close>..\<open>Z\<close> are mapped to \<open>a\<close>..\<open>z\<close>,
  every other character is kept.
\<close>

definition lower_char :: "char \<Rightarrow> char" where
  "lower_char c =
     (case map_of (zip ''ABCDEFGHIJKLMNOPQRSTUVWXYZ'' ''abcdefghijklmnopqrstuvwxyz'') c of
        Some d \<Rightarrow> d
      | None \<Rightarrow> c)"

definition lower :: "string \<Rightarrow> string" where
  "lower s = map lower_char s"

section \<open>The classification table and the extension lookup of \<open>organize_file\<close>\<close>

text \<open>
  The dict literal \<open>FOLDERS\<close> of \<open>organize_file\<close>, in insertion order (the order in which
  \<open>FOLDERS.items()\<close> iterates).
\<close>

definition FOLDERS :: "(string \<times> string list) list" where
  "FOLDERS =
    [(''images'', [''.png'', ''.jpg'', ''.jpeg'', ''.gif'', ''.bmp'', ''.tiff'']),
     (''videos'', [''.mp4'', ''.mkv'', ''.mov'', ''.avi'']),
     (''audio'', [''.mp3'', ''.wav'', ''.aac'', ''.flac'']),
     (''documents'', [''.pdf'', ''.docx'', ''.txt'', ''.pptx'']),
     (''spreadsheets'', [''.xls'', ''.xlsx'', ''.csv'']),
     (''archives'', [''.zip'', ''.rar'', ''.7z'', ''.tar'', ''.gz'']),
     (''software'', [''.exe'', ''.msi'', ''.apk'', ''.iso'']),
     (''others'', [])]"

text \<open>
  The loop \<open>for folder, extensions in FOLDERS.items(): if ext in extensions: ...; break\<close>:
  the first folder whose list holds \<open>ext\<close>, or \<open>None\<close> when the loop ends without a match.
\<close>

fun find_folder :: "(string \<times> string list) list \<Rightarrow> string \<Rightarrow> string option" where
  "find_folder [] ext = None"
| "find_folder ((folder, extensions) # rest) ext =
     (if ext \<in> set extensions then Some folder else find_folder rest ext)"

text \<open>
  The category that \<open>organize_file\<close> chooses for a path (lines 146-170 without the joins):
  the extension is split off and lower-cased, the table is searched, and \<open>others\<close> is the
  fallback.
\<close>

definition classify :: "string \<Rightarrow> string" where
  "classify file_path =
     (case find_folder FOLDERS (lower (splitext_ext file_path)) of
        Some folder \<Rightarrow> folder
      | None \<Rightarrow> ''others'')"

section \<open>The file system and the library calls that touch it\<close>

text \<open>
  The file system is a table from path strings to nodes; a regular file carries a number that
  identifies it (so that a moved file can be recognised at its new path). A path names its
  entry directly: the model has no symbolic links and does not resolve \<open>.\<close>, \<open>..\<close> or
  repeated and trailing separators, the form in which the selected folder and the watcher's
  event paths arrive. The root directory (a path of separators only) always exists, and a
  relative path of one component lies in the current directory, which always exists too.
  Permissions and devices are not modelled.
\<close>

datatype node = Dir | File nat

type_synonym filesystem = "(string \<times> node) list"

datatype py_error =
    TypeError
  | IndexError
  | FileExistsError
  | FileNotFoundError
  | NotADirectoryError
  | IsADirectoryError
  | ShutilError

definition all_seps :: "string \<Rightarrow> bool" where
  "all_seps p = (dropWhile (\<lambda>c. c = sep) p = [])"

definition stat :: "filesystem \<Rightarrow> string \<Rightarrow> node option" where
  "stat fs p = (if p = [] then None else if all_seps p then Some Dir else map_of fs p)"

definition os_path_exists :: "filesystem \<Rightarrow> string \<Rightarrow> bool" where
  "os_path_exists fs p = (stat fs p \<noteq> None)"

definition os_path_isdir :: "filesystem \<Rightarrow> string \<Rightarrow> bool" where
  "os_path_isdir fs p = (stat fs p = Some Dir)"

text \<open>
  \<open>posixpath.join(a, b)\<close> for two strings:
  \<^verbatim>\<open>
    if b.startswith(sep): path = b
    elif not path or path.endswith(sep): path += b
    else: path += sep + b
  \<close>
\<close>

definition os_path_join :: "string \<Rightarrow> string \<Rightarrow> string" where
  "os_path_join a b =
     (if b \<noteq> [] \<and> hd b = sep then b
      else if a = [] \<or> last a = sep then a @ b
      else a @ sep # b)"

definition rstrip_sep :: "string \<Rightarrow> string" where
  "rstrip_sep p = rev (dropWhile (\<lambda>c. c = sep) (rev p))"

text \<open>
  \<open>posixpath.split(p)\<close>:
  \<^verbatim>\<open>
    i = p.rfind(sep) + 1
    head, tail = p[:i], p[i:]
    if head and head != sep*len(head): head = head.rstrip(sep)
    return head, tail
  \<close>
\<close>

definition os_path_split :: "string \<Rightarrow> string \<times> string" where
  "os_path_split p =
     (let tail = basename p;
          head = take (length p - length tail) p
      in (if head \<noteq> [] \<and> \<not> all_seps head then rstrip_sep head else head, tail))"

text \<open>\<open>os.mkdir(name)\<close>: the entry must be new and its parent a directory.\<close>

definition os_mkdir :: "filesystem \<Rightarrow> string \<Rightarrow> py_error + filesystem" where
  "os_mkdir fs name =
     (if name = [] then Inl FileNotFoundError
      else case stat fs name of
        Some n \<Rightarrow> Inl FileExistsError
      | None \<Rightarrow>
          (let head = fst (os_path_split name)
           in if head = [] then Inr (AList.update name Dir fs)
              else case stat fs head of
                None \<Rightarrow> Inl FileNotFoundError
              | Some (File x) \<Rightarrow> Inl NotADirectoryError
              | Some Dir \<Rightarrow> Inr (AList.update name Dir fs)))"

text \<open>
  The last two statements of \<open>os.makedirs(name, exist_ok=True)\<close>:
  \<^verbatim>\<open>
    try: mkdir(name, mode)
    except OSError:
        if not exist_ok or not path.isdir(name): raise
  \<close>
\<close>

definition mkdir_exist_ok :: "filesystem \<Rightarrow> string \<Rightarrow> py_error + filesystem" where
  "mkdir_exist_ok fs name =
     (case os_mkdir fs name of
        Inr fs' \<Rightarrow> Inr fs'
      | Inl e \<Rightarrow> if os_path_isdir fs name then Inr fs else Inl e)"

text \<open>
  The head and tail that \<open>os.makedirs\<close> works with:
  \<^verbatim>\<open>
    head, tail = path.split(name)
    if not tail: head, tail = path.split(head)
  \<close>
\<close>

definition makedirs_split :: "string \<Rightarrow> string \<times> string" where
  "makedirs_split name =
     (if snd (os_path_split name) = [] then os_path_split (fst (os_path_split name))
      else os_path_split name)"

text \<open>
  \<open>os.makedirs(name, exist_ok=True)\<close>:
  \<^verbatim>\<open>
    if head and tail and not path.exists(head):
        try: makedirs(head, exist_ok=exist_ok)
        except FileExistsError: pass
        if tail == curdir: return
    try: mkdir(name, mode) ...
  \<close>
\<close>

function os_makedirs :: "filesystem \<Rightarrow> string \<Rightarrow> py_error + filesystem" where
  "os_makedirs fs name =
     (if fst (makedirs_split name) \<noteq> [] \<and> snd (makedirs_split name) \<noteq> []
         \<and> \<not> os_path_exists fs (fst (makedirs_split name))
      then (case os_makedirs fs (fst (makedirs_split name)) of
              Inl e \<Rightarrow>
                if e = FileExistsError
                then (if snd (makedirs_split name) = ''.'' then Inr fs else mkdir_exist_ok fs name)
                else Inl e
            | Inr fs' \<Rightarrow>
                if snd (makedirs_split name) = ''.'' then Inr fs' else mkdir_exist_ok fs' name)
      else mkdir_exist_ok fs name)"
  by pat_completeness auto
termination
proof (relation "measure (\<lambda>(fs, name). length name)")
  show "wf (measure (\<lambda>(fs, name). length name))"
    by simp
next
  fix fs :: filesystem and name :: string
  assume "fst (makedirs_split name) \<noteq> [] \<and> snd (makedirs_split name) \<noteq> []
    \<and> \<not> os_path_exists fs (fst (makedirs_split name))"
  then have tail: "0 < length (snd (makedirs_split name))"
    by simp
  have strip: "length (rstrip_sep q) \<le> length q" for q
    by (simp add: rstrip_sep_def) (metis length_dropWhile_le length_rev)
  have split: "length (fst (os_path_split p)) + length (snd (os_path_split p)) \<le> length p" for p
  proof -
    let ?h = "take (length p - length (basename p)) p"
    have "length (basename p) \<le> length p"
      by (simp add: basename_def) (metis length_rev length_takeWhile_le)
    then have "length ?h + length (basename p) \<le> length p"
      by simp
    moreover have "length (rstrip_sep ?h) \<le> length ?h"
      by (rule strip)
    ultimately show ?thesis
      by (simp add: os_path_split_def Let_def)
  qed
  have "length (fst (makedirs_split name)) < length name"
  proof (cases "snd (os_path_split name) = []")
    case True
    let ?h = "fst (os_path_split name)"
    have "length (fst (os_path_split ?h)) + length (snd (os_path_split ?h)) \<le> length ?h"
      by (rule split)
    moreover have "length ?h \<le> length name"
      using split [of name] by simp
    moreover have "0 < length (snd (os_path_split ?h))"
      using tail True by (simp add: makedirs_split_def)
    ultimately have "length (fst (os_path_split ?h)) < length name"
      by linarith
    then show ?thesis
      using True by (simp add: makedirs_split_def)
  next
    case False
    then have "0 < length (snd (os_path_split name))"
      by simp
    then have "length (fst (os_path_split name)) < length name"
      using split [of name] by linarith
    then show ?thesis
      using False by (simp add: makedirs_split_def)
  qed
  then show "((fs, fst (makedirs_split name)), (fs, name)) \<in> measure (\<lambda>(fs, name). length name)"
    by simp
qed

declare os_makedirs.simps [simp del]

text \<open>
  \<open>os.listdir(path)\<close>: the names of the immediate entries of a directory. An entry of
  \<open>path\<close> is a table key that is \<open>path\<close> joined with the key's own last component.
\<close>

definition is_entry_of :: "string \<Rightarrow> string \<Rightarrow> bool" where
  "is_entry_of path k = (basename k \<noteq> [] \<and> k = os_path_join path (basename k))"

definition os_listdir :: "filesystem \<Rightarrow> string \<Rightarrow> py_error + string list" where
  "os_listdir fs path =
     (case stat fs path of
        None \<Rightarrow> Inl FileNotFoundError
      | Some (File x) \<Rightarrow> Inl NotADirectoryError
      | Some Dir \<Rightarrow> Inr (map basename (remdups (filter (is_entry_of path) (map fst fs)))))"

text \<open>
  \<open>os.rename(src, dst)\<close> for a regular file \<open>src\<close> (identified by \<open>x\<close>): an empty
  \<open>dst\<close> is an error, renaming a file to itself does nothing, an existing file at \<open>dst\<close> is
  replaced, a directory at \<open>dst\<close> is an error, and the parent of \<open>dst\<close> must be a
  directory. When the rename fails, \<open>shutil.move\<close> falls back to \<open>copy2\<close> and
  \<open>unlink\<close>, which on one device fail for the same reason, before anything is written.
\<close>

definition rename_file :: "filesystem \<Rightarrow> nat \<Rightarrow> string \<Rightarrow> string \<Rightarrow> py_error + filesystem" where
  "rename_file fs x src dst =
     (if dst = [] then Inl FileNotFoundError
      else if src = dst then Inr fs
      else case stat fs dst of
        Some Dir \<Rightarrow> Inl IsADirectoryError
      | _ \<Rightarrow>
          (let head = fst (os_path_split dst)
           in if head = [] then Inr (AList.update dst (File x) (AList.delete src fs))
              else case stat fs head of
                None \<Rightarrow> Inl FileNotFoundError
              | Some (File y) \<Rightarrow> Inl NotADirectoryError
              | Some Dir \<Rightarrow> Inr (AList.update dst (File x) (AList.delete src fs))))"

text \<open>
  Moving a directory: the entry and every entry below it get the new prefix. \<open>shutil.move\<close>
  refuses to move a directory into itself; a destination that exists makes \<open>copytree\<close> fail;
  missing parents of the destination are created by \<open>copytree\<close>.
\<close>

definition rekey :: "string \<Rightarrow> string \<Rightarrow> string \<Rightarrow> string" where
  "rekey src dst k =
     (if k = src then dst
      else if take (length src + 1) k = src @ [sep] then dst @ drop (length src) k
      else k)"

definition move_dir :: "filesystem \<Rightarrow> string \<Rightarrow> string \<Rightarrow> py_error + filesystem" where
  "move_dir fs src dst =
     (if dst = [] then Inl FileNotFoundError
      else if take (length src + 1) dst = src @ [sep] then Inl ShutilError
      else case stat fs dst of
        Some n \<Rightarrow> Inl FileExistsError
      | None \<Rightarrow>
          (case (if fst (os_path_split dst) = [] then Inr fs
                 else os_makedirs fs (fst (os_path_split dst))) of
             Inl e \<Rightarrow> Inl e
           | Inr fs1 \<Rightarrow> Inr (map (\<lambda>(k, n). (rekey src dst k, n)) fs1)))"

text \<open>
  \<open>shutil.move(src, dst)\<close>:
  \<^verbatim>\<open>
    real_dst = dst
    if os.path.isdir(dst):
        if _samefile(src, dst): os.rename(src, dst); return
        real_dst = os.path.join(dst, _basename(src))
        if os.path.exists(real_dst): raise Error("Destination path ... already exists")
    try: os.rename(src, real_dst)
    except OSError: ... copy and delete ...
    return real_dst
  \<close>
  A failed move leaves the file system as it was.
\<close>

definition shutil_move :: "filesystem \<Rightarrow> string \<Rightarrow> string \<Rightarrow> py_error + filesystem" where
  "shutil_move fs src dst =
     (if os_path_isdir fs dst \<and> src = dst then Inr fs
      else
        let real_dst =
              (if os_path_isdir fs dst then os_path_join dst (basename (rstrip_sep src)) else dst)
        in if os_path_isdir fs dst \<and> os_path_exists fs real_dst then Inl ShutilError
           else case stat fs src of
             None \<Rightarrow> Inl FileNotFoundError
           | Some (File x) \<Rightarrow> rename_file fs x src real_dst
           | Some Dir \<Rightarrow> move_dir fs src real_dst)"

section \<open>The application state and \<open>MonitorApp\<close>\<close>

text \<open>
  What \<open>print\<close> writes in \<open>organize_file\<close>, one constructor per format string:
  \<open>Skipping: {filename}\<close>, \<open>Organizing: {file_path}\<close>,
  \<open>Moved: {file_path} -> {destination_folder}\<close>, \<open>Error moving {file_path}: {e}\<close>.
\<close>

datatype line =
    Skipping string
  | Organizing string
  | Moved string string
  | ErrorMoving string py_error

text \<open>
  The state that the methods of \<open>MonitorApp\<close> read and write: \<open>self.base_folder\<close>
  (\<open>None\<close> until a folder is selected), the \<open>total_items\<close> of each widget of
  \<open>self.progress_bars\<close>, the file system, and the lines printed so far.
\<close>

record world =
  base_folder :: "string option"
  progress_bars :: "nat list"
  file_system :: filesystem
  stdout :: "line list"

text \<open>\<open>self.folders\<close>, set in \<open>__init__\<close>.\<close>

definition folders :: "string list" where
  "folders = [''images'', ''videos'', ''audio'', ''documents'',
              ''spreadsheets'', ''archives'', ''software'', ''others'']"

definition excluded_files :: "string list" where
  "excluded_files = [''README.txt'', ''dashboard.png'']"

text \<open>
  A method either returns (\<open>None\<close>) or raises (\<open>Some e\<close>); in both cases the effects it had
  until then stay in the state.
\<close>

type_synonym outcome = "py_error option \<times> world"

text \<open>
  Lines 160-161: \<open>for folder in FOLDERS: os.makedirs(os.path.join(self.base_folder, folder),
  exist_ok=True)\<close>. The loop stops at the first call that raises; the directories made before
  stay.
\<close>

fun makedirs_loop :: "filesystem \<Rightarrow> string \<Rightarrow> string list \<Rightarrow> py_error option \<times> filesystem" where
  "makedirs_loop fs base [] = (None, fs)"
| "makedirs_loop fs base (folder # rest) =
     (case os_makedirs fs (os_path_join base folder) of
        Inl e \<Rightarrow> (Some e, fs)
      | Inr fs' \<Rightarrow> makedirs_loop fs' base rest)"

text \<open>
  Lines 163-170: \<open>destination_folder\<close> starts as \<open>None\<close>, the loop over \<open>FOLDERS.items()\<close>
  sets it at the first match, and \<open>if not destination_folder\<close> (true for \<open>None\<close> and for the
  empty string) selects \<open>others\<close>.
\<close>

definition destination_folder :: "string \<Rightarrow> string \<Rightarrow> string" where
  "destination_folder base ext =
     (case map_option (os_path_join base) (find_folder FOLDERS ext) of
        None \<Rightarrow> os_path_join base ''others''
      | Some d \<Rightarrow> if d = [] then os_path_join base ''others'' else d)"

text \<open>
  \<open>organize_file\<close> up to the call of \<open>shutil.move\<close> (lines 135-170): either the method is
  over (\<open>Inl\<close>: the file is excluded, or a call raised), or the move is about to run
  (\<open>Inr\<close>: the state, the source, the destination folder). Joining \<open>None\<close> with a folder
  name raises \<open>TypeError\<close>.
\<close>

definition organize_until_move :: "world \<Rightarrow> string \<Rightarrow> outcome + world \<times> string \<times> string" where
  "organize_until_move w file_path =
     (let filename = basename file_path
      in if filename \<in> set excluded_files
         then Inl (None, w\<lparr>stdout := stdout w @ [Skipping filename]\<rparr>)
         else
           let w1 = w\<lparr>stdout := stdout w @ [Organizing file_path]\<rparr>;
               ext = lower (splitext_ext file_path)
           in case base_folder w1 of
                None \<Rightarrow> Inl (Some TypeError, w1)
              | Some base \<Rightarrow>
                  (case makedirs_loop (file_system w1) base (map fst FOLDERS) of
                     (Some e, fs1) \<Rightarrow> Inl (Some e, w1\<lparr>file_system := fs1\<rparr>)
                   | (None, fs1) \<Rightarrow>
                       Inr (w1\<lparr>file_system := fs1\<rparr>, file_path, destination_folder base ext)))"

text \<open>
  Lines 172-176: the move inside \<open>try\<close>, and the \<open>except Exception\<close> that prints the
  error and lets the method return.
\<close>

definition move_step :: "world \<Rightarrow> string \<Rightarrow> string \<Rightarrow> outcome" where
  "move_step w file_path dest =
     (case shutil_move (file_system w) file_path (os_path_join dest (basename file_path)) of
        Inr fs2 \<Rightarrow> (None, w\<lparr>file_system := fs2, stdout := stdout w @ [Moved file_path dest]\<rparr>)
      | Inl e \<Rightarrow> (None, w\<lparr>stdout := stdout w @ [ErrorMoving file_path e]\<rparr>))"

definition organize_file :: "world \<Rightarrow> string \<Rightarrow> outcome" where
  "organize_file w file_path =
     (case organize_until_move w file_path of
        Inl r \<Rightarrow> r
      | Inr (w1, src, dest) \<Rightarrow> move_step w1 src dest)"

text \<open>\<open>FileOrganizerHandler.on_created\<close>: only events for non-directories are organized.\<close>

record event =
  src_path :: string
  is_directory :: bool

definition on_created :: "world \<Rightarrow> event \<Rightarrow> outcome" where
  "on_created w ev = (if \<not> is_directory ev then organize_file w (src_path ev) else (None, w))"


text \<open>
  \<open>update_folder_counts\<close> (lines 178-186), run by the timer every five seconds. The loop body
  for index \<open>i\<close> and folder name \<open>folder\<close>: \<open>os.listdir\<close> may raise, and so may
  \<open>self.progress_bars[i]\<close>.
\<close>

definition count_folder :: "world \<Rightarrow> string \<Rightarrow> nat \<Rightarrow> string \<Rightarrow> outcome" where
  "count_folder w base i folder =
     (let folder_path = os_path_join base folder
      in if os_path_exists (file_system w) folder_path
         then (case os_listdir (file_system w) folder_path of
                 Inl e \<Rightarrow> (Some e, w)
               | Inr names \<Rightarrow>
                   if i < length (progress_bars w)
                   then (None, w\<lparr>progress_bars := (progress_bars w)[i := length names]\<rparr>)
                   else (Some IndexError, w))
         else (None, w))"

fun count_loop :: "world \<Rightarrow> string \<Rightarrow> (nat \<times> string) list \<Rightarrow> outcome" where
  "count_loop w base [] = (None, w)"
| "count_loop w base ((i, folder) # rest) =
     (case count_folder w base i folder of
        (Some e, w') \<Rightarrow> (Some e, w')
      | (None, w') \<Rightarrow> count_loop w' base rest)"

definition update_folder_counts :: "world \<Rightarrow> outcome" where
  "update_folder_counts w =
     (case base_folder w of
        None \<Rightarrow> (None, w)
      | Some base \<Rightarrow>
          if base = [] then (None, w)
          else count_loop w base (enumerate 0 folders))"

text \<open>
  The state after \<open>MonitorApp.__init__\<close> on a given file system: no folder selected, one
  widget per entry of \<open>self.folders\<close> with \<open>total_items = 0\<close>, nothing printed.
\<close>

definition init_world :: "filesystem \<Rightarrow> world" where
  "init_world disk =
     \<lparr>base_folder = None, progress_bars = map (\<lambda>folder. 0) folders,
      file_system = disk, stdout = []\<rparr>"

section \<open>Notions used in the statements\<close>

text \<open>
  \<open>grows fs fs'\<close>: every path is in \<open>fs'\<close> what it was in \<open>fs\<close>, except that a path missing
  from \<open>fs\<close> may be a directory in \<open>fs'\<close>. \<open>plain_name f\<close>: a single path component other
  than \<open>.\<close>.
\<close>

definition grows :: "filesystem \<Rightarrow> filesystem \<Rightarrow> bool" where
  "grows fs fs' = (\<forall>q. stat fs' q = stat fs q \<or> (stat fs q = None \<and> stat fs' q = Some Dir))"

definition plain_name :: "string \<Rightarrow> bool" where
  "plain_name f = (f \<noteq> [] \<and> sep \<notin> set f \<and> f \<noteq> ''.'')"

text \<open>
  \<open>new_bars disk base bars xs\<close>: the counts after the loop of \<open>update_folder_counts\<close> over
  the (index, folder) pairs \<open>xs\<close> when no call raises: the bar of a folder that is a directory
  gets the number of its entries, the other bars stay.
\<close>

definition new_bars :: "filesystem \<Rightarrow> string \<Rightarrow> nat list \<Rightarrow> (nat \<times> string) list \<Rightarrow> nat list" where
  "new_bars disk base bars xs =
     fold (\<lambda>(i, folder) bs.
            if os_path_isdir disk (os_path_join base folder)
            then bs[i := length (remdups (filter (is_entry_of (os_path_join base folder)) (map fst disk)))]
            else bs) xs bars"



section \<open>Facts about paths\<close>

lemma sep_notin_basename: "sep \<notin> set (basename p)"
  by (auto simp: basename_def dest: set_takeWhileD)


lemma basename_append_sep: "sep \<notin> set f \<Longrightarrow> basename (a @ sep # f) = f"
proof -
  assume h: "sep \<notin> set f"
  have "takeWhile (\<lambda>c. c \<noteq> sep) (rev f @ sep # rev a) = rev f"
    using h by (auto simp: takeWhile_tail takeWhile_eq_all_conv)
  then show ?thesis by (simp add: basename_def)
qed




lemma basename_append_no_sep: "sep \<notin> set t \<Longrightarrow> basename (a @ t) = basename a @ t"
proof -
  assume "sep \<notin> set t"
  then have "takeWhile (\<lambda>c. c \<noteq> sep) (rev t @ rev a) = rev t @ takeWhile (\<lambda>c. c \<noteq> sep) (rev a)"
    by (intro takeWhile_append2) auto
  then show ?thesis unfolding basename_def by (simp only: rev_append rev_rev_ident)
qed

lemma lower_char_extsep: "(lower_char c = extsep) = (c = extsep)"
  by (auto simp: lower_char_def extsep_def split: if_splits)

lemma lower_char_sep: "(lower_char c = sep) = (c = sep)"
  by (auto simp: lower_char_def sep_def split: if_splits)

lemma extsep_in_lower: "(extsep \<in> set (lower s)) = (extsep \<in> set s)"
  by (simp add: lower_def image_iff) (metis lower_char_extsep)

lemma sep_in_lower: "(sep \<in> set (lower s)) = (sep \<in> set s)"
  by (simp add: lower_def image_iff) (metis lower_char_sep)


lemma find_folder_distinct:
  "distinct (concat (map snd T)) \<Longrightarrow> (folder, exts) \<in> set T \<Longrightarrow> e \<in> set exts \<Longrightarrow>
     find_folder T e = Some folder"
proof (induction T)
  case Nil
  then show ?case by simp
next
  case (Cons a T)
  obtain f0 x0 where a: "a = (f0, x0)" by (cases a)
  show ?case
  proof (cases "(folder, exts) = (f0, x0)")
    case True
    then show ?thesis using Cons.prems a by simp
  next
    case False
    then have mem: "(folder, exts) \<in> set T" using Cons.prems a by auto
    then have "e \<in> set (concat (map snd T))" using Cons.prems(3) by force
    then have "e \<notin> set x0" using Cons.prems(1) a by auto
    moreover have "find_folder T e = Some folder"
      using Cons.IH Cons.prems mem by simp
    ultimately show ?thesis using a by simp
  qed
qed

lemma distinct_FOLDERS: "distinct (concat (map snd FOLDERS))"
  by (simp add: FOLDERS_def)

lemma find_folder_FOLDERS:
  "(folder, exts) \<in> set FOLDERS \<Longrightarrow> e \<in> set exts \<Longrightarrow> find_folder FOLDERS e = Some folder"
  by (rule find_folder_distinct [OF distinct_FOLDERS])

lemma ext_shape:
  "(folder, exts) \<in> set FOLDERS \<Longrightarrow> e \<in> set exts \<Longrightarrow>
     \<exists>r. e = extsep # r \<and> extsep \<notin> set r \<and> sep \<notin> set r"
  by (auto simp: FOLDERS_def extsep_def sep_def)

lemma lower_shape:
  assumes "lower E = extsep # r" "extsep \<notin> set r" "sep \<notin> set r"
  shows "\<exists>r'. E = extsep # r' \<and> extsep \<notin> set r' \<and> sep \<notin> set r'"
proof -
  obtain c r' where E: "E = c # r'" using assms(1) by (cases E) (auto simp: lower_def)
  then have c: "lower_char c = extsep" and r: "lower r' = r"
    using assms(1) by (auto simp: lower_def)
  have "c = extsep" using c by (simp add: lower_char_extsep)
  moreover have "extsep \<notin> set r'" using assms(2) r extsep_in_lower [of r'] by simp
  moreover have "sep \<notin> set r'" using assms(3) r sep_in_lower [of r'] by simp
  ultimately show ?thesis using E by simp
qed

lemma splitext_ext_append:
  assumes "dropWhile (\<lambda>c. c = extsep) (basename name) \<noteq> []"
    and "extsep \<notin> set r" and "sep \<notin> set r"
  shows "splitext_ext (name @ extsep # r) = extsep # r"
proof -
  have ne: "extsep \<noteq> sep" by (simp add: extsep_def sep_def)
  then have b: "basename (name @ extsep # r) = basename name @ extsep # r"
    using assms(3) by (intro basename_append_no_sep) auto
  have "takeWhile (\<lambda>c. c \<noteq> extsep) (rev r @ extsep # rev (basename name)) = rev r"
    using assms(2) by (auto simp: takeWhile_tail takeWhile_eq_all_conv)
  then have suffix: "rev (takeWhile (\<lambda>c. c \<noteq> extsep) (rev (basename name @ extsep # r))) = r"
    by (simp only: rev_append rev.simps append_assoc append_Cons append_Nil rev_rev_ident)
  show ?thesis
    unfolding splitext_ext_def b Let_def suffix using assms(1) by simp
qed

section \<open>Classification\<close>

text \<open>
  C1 (as amended). For every extension \<open>E\<close> whose lower-case form is listed in the table
  under a category, and every name whose last path component has a character other than a
  dot, the name followed by \<open>E\<close> is classified into that category, whatever the letter case
  of \<open>E\<close>.
\<close>

theorem classify_supported_extension:
  assumes "(folder, extensions) \<in> set FOLDERS"
    and "lower E \<in> set extensions"
    and "dropWhile (\<lambda>c. c = extsep) (basename name) \<noteq> []"
  shows "classify (name @ E) = folder"
proof -
  obtain r where r: "lower E = extsep # r" "extsep \<notin> set r" "sep \<notin> set r"
    using ext_shape [OF assms(1,2)] by blast
  then obtain r' where r': "E = extsep # r'" "extsep \<notin> set r'" "sep \<notin> set r'"
    using lower_shape by blast
  have "splitext_ext (name @ E) = E"
    using splitext_ext_append [OF assms(3) r'(2,3)] r'(1) by simp
  then have "find_folder FOLDERS (lower (splitext_ext (name @ E))) = Some folder"
    using find_folder_FOLDERS [OF assms(1,2)] by simp
  then show ?thesis by (simp add: classify_def)
qed

theorem classify_supported_extension_witness:
  "(''images'', [''.png'', ''.jpg'', ''.jpeg'', ''.gif'', ''.bmp'', ''.tiff'']) \<in> set FOLDERS
   \<and> lower ''.JPG'' \<in> set [''.png'', ''.jpg'', ''.jpeg'', ''.gif'', ''.bmp'', ''.tiff'']
   \<and> dropWhile (\<lambda>c. c = extsep) (basename ''R/photo'') \<noteq> []
   \<and> classify (''R/photo'' @ ''.JPG'') = ''images''"
proof -
  have a: "(''images'', [''.png'', ''.jpg'', ''.jpeg'', ''.gif'', ''.bmp'', ''.tiff'']) \<in> set FOLDERS"
    by (simp add: FOLDERS_def)
  have b: "lower ''.JPG'' \<in> set [''.png'', ''.jpg'', ''.jpeg'', ''.gif'', ''.bmp'', ''.tiff'']"
    by (simp add: lower_def lower_char_def)
  have c: "dropWhile (\<lambda>c. c = extsep) (basename ''R/photo'') \<noteq> []"
    by (simp add: basename_def sep_def extsep_def)
  show ?thesis
    using a b c classify_supported_extension [OF a b c] by simp
qed

text \<open>
  The restriction on the name is needed: \<open>os.path.splitext\<close> ignores the leading dots of the
  last component, so a file named \<open>....jpg\<close> or \<open>.jpg\<close> has no extension and goes to
  \<open>others\<close>.
\<close>

theorem classify_dots_only_counterexample:
  "(''images'', [''.png'', ''.jpg'', ''.jpeg'', ''.gif'', ''.bmp'', ''.tiff'']) \<in> set FOLDERS
   \<and> ''.jpg'' \<in> set [''.png'', ''.jpg'', ''.jpeg'', ''.gif'', ''.bmp'', ''.tiff'']
   \<and> classify (''...'' @ ''.jpg'') = ''others''
   \<and> classify ''.jpg'' = ''others''"
  by (simp add: FOLDERS_def classify_def lower_def lower_char_def splitext_ext_def
      basename_def sep_def extsep_def)



section \<open>Facts about the file system calls\<close>

lemma grows_refl: "grows fs fs"
  by (simp add: grows_def)

lemma grows_trans: "grows a b \<Longrightarrow> grows b c \<Longrightarrow> grows a c"
  unfolding grows_def by (metis option.distinct(1))


lemma grows_update_new: "stat fs name = None \<Longrightarrow> grows fs (AList.update name Dir fs)"
  by (auto simp: grows_def stat_def update_conv')

lemma os_mkdir_grows: "os_mkdir fs name = Inr fs' \<Longrightarrow> grows fs fs'"
  by (auto simp: os_mkdir_def Let_def grows_update_new
      split: if_splits option.splits node.splits)


lemma mkdir_exist_ok_grows: "mkdir_exist_ok fs name = Inr fs' \<Longrightarrow> grows fs fs'"
  by (auto simp: mkdir_exist_ok_def grows_refl os_mkdir_grows split: sum.splits if_splits)


lemma os_makedirs_grows: "os_makedirs fs name = Inr fs' \<Longrightarrow> grows fs fs'"
proof (induction fs name arbitrary: fs' rule: os_makedirs.induct)
  case (1 fs name)
  show ?case
  proof (cases "fst (makedirs_split name) \<noteq> [] \<and> snd (makedirs_split name) \<noteq> []
         \<and> \<not> os_path_exists fs (fst (makedirs_split name))")
    case False
    then have "mkdir_exist_ok fs name = Inr fs'"
      using "1.prems" by (subst (asm) os_makedirs.simps) auto
    then show ?thesis by (rule mkdir_exist_ok_grows)
  next
    case True
    show ?thesis
    proof (cases "os_makedirs fs (fst (makedirs_split name))")
      case (Inl e)
      then have "fs' = fs \<or> mkdir_exist_ok fs name = Inr fs'"
        using "1.prems" True by (subst (asm) os_makedirs.simps) (auto split: if_splits)
      then show ?thesis using grows_refl mkdir_exist_ok_grows by blast
    next
      case (Inr fs1)
      then have g1: "grows fs fs1" using "1.IH" True by blast
      have "fs' = fs1 \<or> mkdir_exist_ok fs1 name = Inr fs'"
        using "1.prems" True Inr by (subst (asm) os_makedirs.simps) (auto split: if_splits)
      then show ?thesis using g1 grows_refl mkdir_exist_ok_grows grows_trans by blast
    qed
  qed
qed




lemma makedirs_loop_grows: "makedirs_loop fs base fl = (r, fs') \<Longrightarrow> grows fs fs'"
proof (induction fl arbitrary: fs)
  case Nil
  then show ?case by (simp add: grows_refl)
next
  case (Cons f fl)
  show ?case
  proof (cases "os_makedirs fs (os_path_join base f)")
    case (Inl e)
    then show ?thesis using Cons.prems by (simp add: grows_refl)
  next
    case (Inr fs1)
    then have "makedirs_loop fs1 base fl = (r, fs')" using Cons.prems by simp
    then have "grows fs1 fs'" by (rule Cons.IH)
    then show ?thesis using os_makedirs_grows [OF Inr] grows_trans by blast
  qed
qed










lemma map_fst_FOLDERS: "map fst FOLDERS = folders"
  by (simp add: FOLDERS_def folders_def)

lemma plain_folders: "f \<in> set folders \<Longrightarrow> plain_name f"
  by (auto simp: folders_def plain_name_def sep_def)

lemma find_folder_mem: "find_folder T e = Some f \<Longrightarrow> f \<in> set (map fst T)"
  by (induction T e rule: find_folder.induct) (auto split: if_splits)


lemma join_nonempty: "b \<noteq> [] \<Longrightarrow> os_path_join a b \<noteq> []"
  by (simp add: os_path_join_def)

lemma destination_folder_classify:
  "destination_folder base (lower (splitext_ext p)) = os_path_join base (classify p)"
proof (cases "find_folder FOLDERS (lower (splitext_ext p))")
  case None
  then show ?thesis by (simp add: destination_folder_def classify_def)
next
  case (Some f)
  then have "f \<in> set folders" using find_folder_mem [OF Some] by (simp add: map_fst_FOLDERS)
  then have "f \<noteq> []" using plain_folders by (auto simp: plain_name_def)
  then show ?thesis using Some by (simp add: destination_folder_def classify_def join_nonempty)
qed

lemma organize_until_move_Inr:
  assumes "organize_until_move w p = Inr (w1, src, dest)"
  shows "\<exists>base fs1. base_folder w = Some base \<and> basename p \<notin> set excluded_files
           \<and> makedirs_loop (file_system w) base folders = (None, fs1)
           \<and> w1 = w\<lparr>stdout := stdout w @ [Organizing p], file_system := fs1\<rparr>
           \<and> src = p \<and> dest = os_path_join base (classify p)"
  using assms
  by (auto simp: organize_until_move_def Let_def map_fst_FOLDERS destination_folder_classify
      split: if_splits option.splits prod.splits)

section \<open>The category directories\<close>



section \<open>Excluded files\<close>

text \<open>
  C6. When the file name of the source path is on the exclusion list, \<open>organize_file\<close>
  returns after printing the \<open>Skipping\<close> line: no directory is created, nothing is classified
  or moved, and the file system is the one it started with.
\<close>

theorem organize_excluded_no_action:
  assumes "basename file_path \<in> set excluded_files"
  shows "organize_file w file_path = (None, w\<lparr>stdout := stdout w @ [Skipping (basename file_path)]\<rparr>)
         \<and> file_system (snd (organize_file w file_path)) = file_system w"
  using assms by (simp add: organize_file_def organize_until_move_def)

theorem organize_excluded_no_action_witness:
  "basename ''R/README.txt'' \<in> set excluded_files
   \<and> organize_file ((init_world [(''R'', Dir), (''R/README.txt'', File 3)])\<lparr>base_folder := Some ''R''\<rparr>)
        ''R/README.txt''
      = (None, \<lparr>base_folder = Some ''R'', progress_bars = [0, 0, 0, 0, 0, 0, 0, 0],
                file_system = [(''R'', Dir), (''R/README.txt'', File 3)],
                stdout = [Skipping ''README.txt'']\<rparr>)"
proof -
  have h: "basename ''R/README.txt'' \<in> set excluded_files"
    by (simp add: basename_def sep_def excluded_files_def)
  have b: "basename ''R/README.txt'' = ''README.txt''"
    by (simp add: basename_def sep_def)
  show ?thesis
    using h b organize_excluded_no_action [OF h,
        of "(init_world [(''R'', Dir), (''R/README.txt'', File 3)])\<lparr>base_folder := Some ''R''\<rparr>"]
    by (simp add: init_world_def folders_def)
qed

lemma classify_by_basename: "basename p = basename q \<Longrightarrow> classify p = classify q"
  by (simp add: classify_def splitext_ext_def)

text \<open>
  C10. The exclusion test compares the last component of the source path with the two names
  \<open>README.txt\<close> and \<open>dashboard.png\<close>, exactly. A path that ends in one of them is skipped
  whatever directories precede it, and a path is skipped only if its last component is one of
  them: for every other last component (so for every other spelling of the two names, such
  as \<open>readme.txt\<close> or \<open>README.TXT\<close>) \<open>organize_file\<close> goes on to create the category folders
  and, when that returns, moves the file with the folder of its category as destination
  (\<open>documents\<close> for \<open>readme.txt\<close> and \<open>README.TXT\<close>).
\<close>

theorem exclusion_is_exact_basename_match:
  "organize_file w (d @ sep # ''README.txt'')
      = (None, w\<lparr>stdout := stdout w @ [Skipping ''README.txt'']\<rparr>)
   \<and> organize_file w (d @ sep # ''dashboard.png'')
      = (None, w\<lparr>stdout := stdout w @ [Skipping ''dashboard.png'']\<rparr>)
   \<and> (basename p \<in> set excluded_files) = (basename p = ''README.txt'' \<or> basename p = ''dashboard.png'')
   \<and> ((basename p = ''README.txt'' \<or> basename p = ''dashboard.png'')
       \<longrightarrow> organize_file w p = (None, w\<lparr>stdout := stdout w @ [Skipping (basename p)]\<rparr>))
   \<and> (basename p \<noteq> ''README.txt'' \<and> basename p \<noteq> ''dashboard.png'' \<and> base_folder w = Some base
        \<and> makedirs_loop (file_system w) base folders = (None, fs1)
       \<longrightarrow> organize_file w p
             = move_step (w\<lparr>stdout := stdout w @ [Organizing p], file_system := fs1\<rparr>) p
                 (os_path_join base (classify p)))
   \<and> (basename p \<noteq> ''README.txt'' \<and> basename p \<noteq> ''dashboard.png'' \<and> base_folder w = Some base
        \<and> makedirs_loop (file_system w) base folders = (Some e, fs1)
       \<longrightarrow> organize_file w p
             = (Some e, w\<lparr>stdout := stdout w @ [Organizing p], file_system := fs1\<rparr>))
   \<and> ((basename p = ''readme.txt'' \<or> basename p = ''README.TXT'') \<and> base_folder w = Some base
        \<and> makedirs_loop (file_system w) base folders = (None, fs1)
       \<longrightarrow> organize_file w p
             = move_step (w\<lparr>stdout := stdout w @ [Organizing p], file_system := fs1\<rparr>) p
                 (os_path_join base ''documents''))"
proof -
  have b1: "basename (d @ sep # ''README.txt'') = ''README.txt''"
    by (rule basename_append_sep) (simp add: sep_def)
  have b2: "basename (d @ sep # ''dashboard.png'') = ''dashboard.png''"
    by (rule basename_append_sep) (simp add: sep_def)
  have 1: "organize_file w (d @ sep # ''README.txt'')
      = (None, w\<lparr>stdout := stdout w @ [Skipping ''README.txt'']\<rparr>)"
    by (simp add: organize_file_def organize_until_move_def b1 excluded_files_def)
  have 2: "organize_file w (d @ sep # ''dashboard.png'')
      = (None, w\<lparr>stdout := stdout w @ [Skipping ''dashboard.png'']\<rparr>)"
    by (simp add: organize_file_def organize_until_move_def b2 excluded_files_def)
  have 3: "(basename p \<in> set excluded_files) = (basename p = ''README.txt'' \<or> basename p = ''dashboard.png'')"
    by (simp add: excluded_files_def)
  have 4: "organize_file w p = (None, w\<lparr>stdout := stdout w @ [Skipping (basename p)]\<rparr>)"
    if "basename p = ''README.txt'' \<or> basename p = ''dashboard.png''"
    using that 3 by (simp add: organize_file_def organize_until_move_def)
  have 5: "organize_file w p
             = move_step (w\<lparr>stdout := stdout w @ [Organizing p], file_system := fs1\<rparr>) p
                 (os_path_join base (classify p))"
    if "basename p \<noteq> ''README.txt''" "basename p \<noteq> ''dashboard.png''"
      "base_folder w = Some base" "makedirs_loop (file_system w) base folders = (None, fs1)"
    using that 3
    by (simp add: organize_file_def organize_until_move_def Let_def map_fst_FOLDERS
        destination_folder_classify)
  have 6: "organize_file w p
             = (Some e, w\<lparr>stdout := stdout w @ [Organizing p], file_system := fs1\<rparr>)"
    if "basename p \<noteq> ''README.txt''" "basename p \<noteq> ''dashboard.png''"
      "base_folder w = Some base" "makedirs_loop (file_system w) base folders = (Some e, fs1)"
    using that 3
    by (simp add: organize_file_def organize_until_move_def Let_def map_fst_FOLDERS)
  have 7: "organize_file w p
             = move_step (w\<lparr>stdout := stdout w @ [Organizing p], file_system := fs1\<rparr>) p
                 (os_path_join base ''documents'')"
    if b: "basename p = ''readme.txt'' \<or> basename p = ''README.TXT''"
      and r: "base_folder w = Some base"
      and l: "makedirs_loop (file_system w) base folders = (None, fs1)"
  proof -
    have "classify ''readme.txt'' = ''documents''" "classify ''README.TXT'' = ''documents''"
      by (simp_all add: classify_def FOLDERS_def lower_def lower_char_def splitext_ext_def
          basename_def sep_def extsep_def)
    moreover have "basename ''readme.txt'' = ''readme.txt''" "basename ''README.TXT'' = ''README.TXT''"
      by (simp_all add: basename_def sep_def)
    ultimately have c: "classify p = ''documents''"
      using b classify_by_basename [of p "''readme.txt''"] classify_by_basename [of p "''README.TXT''"]
      by auto
    have "basename p \<noteq> ''README.txt''" "basename p \<noteq> ''dashboard.png''"
      using b by auto
    then show ?thesis using 5 r l c by simp
  qed
  show ?thesis using 1 2 3 4 5 6 7 by blast
qed

theorem exclusion_is_exact_basename_match_witness:
  "basename ''R/sub/readme.txt'' = ''readme.txt''
   \<and> fst (organize_file
        ((init_world [(''R'', Dir), (''R/sub'', Dir), (''R/sub/readme.txt'', File 4)])
           \<lparr>base_folder := Some ''R''\<rparr>) ''R/sub/readme.txt'') = None
   \<and> stat (file_system (snd (organize_file
        ((init_world [(''R'', Dir), (''R/sub'', Dir), (''R/sub/readme.txt'', File 4)])
           \<lparr>base_folder := Some ''R''\<rparr>) ''R/sub/readme.txt''))) ''R/documents/readme.txt''
      = Some (File 4)
   \<and> organize_file
        ((init_world [(''R'', Dir), (''R/sub'', Dir), (''R/sub/README.txt'', File 4)])
           \<lparr>base_folder := Some ''R''\<rparr>) (''R/sub'' @ sep # ''README.txt'')
      = (None, \<lparr>base_folder = Some ''R'', progress_bars = [0, 0, 0, 0, 0, 0, 0, 0],
                file_system = [(''R'', Dir), (''R/sub'', Dir), (''R/sub/README.txt'', File 4)],
                stdout = [Skipping ''README.txt'']\<rparr>)
   \<and> basename ''R/Dashboard.PNG'' = ''Dashboard.PNG''
   \<and> classify ''R/Dashboard.PNG'' = ''images''
   \<and> stat (file_system (snd (organize_file
        ((init_world [(''R'', Dir), (''R/Dashboard.PNG'', File 6)])\<lparr>base_folder := Some ''R''\<rparr>)
        ''R/Dashboard.PNG''))) ''R/images/Dashboard.PNG''
      = Some (File 6)"
proof -
  let ?u = "(init_world [(''R'', Dir), (''R/Dashboard.PNG'', File 6)])\<lparr>base_folder := Some ''R''\<rparr>"
  let ?fs2 = "[(''R'', Dir), (''R/Dashboard.PNG'', File 6), (''R/images'', Dir),
               (''R/videos'', Dir), (''R/audio'', Dir), (''R/documents'', Dir),
               (''R/spreadsheets'', Dir), (''R/archives'', Dir), (''R/software'', Dir),
               (''R/others'', Dir)]"
  have bu: "basename ''R/Dashboard.PNG'' = ''Dashboard.PNG''" by code_simp
  have nu: "basename ''R/Dashboard.PNG'' \<noteq> ''README.txt''"
    "basename ''R/Dashboard.PNG'' \<noteq> ''dashboard.png''"
    using bu by simp_all
  have ru: "base_folder ?u = Some ''R''" by simp
  have lu: "makedirs_loop (file_system ?u) ''R'' folders = (None, ?fs2)" by code_simp
  have cu: "classify ''R/Dashboard.PNG'' = ''images''" by code_simp
  have mu: "stat (file_system (snd (move_step (?u\<lparr>stdout := stdout ?u @ [Organizing ''R/Dashboard.PNG''],
                file_system := ?fs2\<rparr>) ''R/Dashboard.PNG''
                (os_path_join ''R'' (classify ''R/Dashboard.PNG'')))))
                 ''R/images/Dashboard.PNG'' = Some (File 6)"
    by code_simp
  have eu: "organize_file ?u ''R/Dashboard.PNG''
             = move_step (?u\<lparr>stdout := stdout ?u @ [Organizing ''R/Dashboard.PNG''],
                file_system := ?fs2\<rparr>) ''R/Dashboard.PNG''
                (os_path_join ''R'' (classify ''R/Dashboard.PNG''))"
    using exclusion_is_exact_basename_match [of ?u "''R''" "''R/Dashboard.PNG''" "''R''" ?fs2]
      nu ru lu by blast
  have du: "stat (file_system (snd (organize_file ?u ''R/Dashboard.PNG''))) ''R/images/Dashboard.PNG''
      = Some (File 6)"
    using eu mu by simp
  let ?w = "(init_world [(''R'', Dir), (''R/sub'', Dir), (''R/sub/readme.txt'', File 4)])
              \<lparr>base_folder := Some ''R''\<rparr>"
  let ?v = "(init_world [(''R'', Dir), (''R/sub'', Dir), (''R/sub/README.txt'', File 4)])
              \<lparr>base_folder := Some ''R''\<rparr>"
  let ?fs1 = "[(''R'', Dir), (''R/sub'', Dir), (''R/sub/readme.txt'', File 4), (''R/images'', Dir),
               (''R/videos'', Dir), (''R/audio'', Dir), (''R/documents'', Dir),
               (''R/spreadsheets'', Dir), (''R/archives'', Dir), (''R/software'', Dir),
               (''R/others'', Dir)]"
  have b: "basename ''R/sub/readme.txt'' = ''readme.txt''" by code_simp
  have r: "base_folder ?w = Some ''R''" by simp
  have l: "makedirs_loop (file_system ?w) ''R'' folders = (None, ?fs1)" by code_simp
  have m: "fst (move_step (?w\<lparr>stdout := stdout ?w @ [Organizing ''R/sub/readme.txt''],
                file_system := ?fs1\<rparr>) ''R/sub/readme.txt'' (os_path_join ''R'' ''documents'')) = None
           \<and> stat (file_system (snd (move_step (?w\<lparr>stdout := stdout ?w @ [Organizing ''R/sub/readme.txt''],
                file_system := ?fs1\<rparr>) ''R/sub/readme.txt'' (os_path_join ''R'' ''documents''))))
                 ''R/documents/readme.txt'' = Some (File 4)"
    by code_simp
  note t = exclusion_is_exact_basename_match [of ?w "''R/sub''" "''R/sub/readme.txt''" "''R''" ?fs1]
  have e: "organize_file ?w ''R/sub/readme.txt''
             = move_step (?w\<lparr>stdout := stdout ?w @ [Organizing ''R/sub/readme.txt''],
                file_system := ?fs1\<rparr>) ''R/sub/readme.txt'' (os_path_join ''R'' ''documents'')"
    using t b r l by blast
  have s: "organize_file ?v (''R/sub'' @ sep # ''README.txt'')
             = (None, ?v\<lparr>stdout := stdout ?v @ [Skipping ''README.txt'']\<rparr>)"
    using exclusion_is_exact_basename_match [of ?v "''R/sub''"] by blast
  have s': "?v\<lparr>stdout := stdout ?v @ [Skipping ''README.txt'']\<rparr>
            = \<lparr>base_folder = Some ''R'', progress_bars = [0, 0, 0, 0, 0, 0, 0, 0],
                file_system = [(''R'', Dir), (''R/sub'', Dir), (''R/sub/README.txt'', File 4)],
                stdout = [Skipping ''README.txt'']\<rparr>"
    by (simp add: init_world_def folders_def)
  show ?thesis using b m e s s' bu cu du by simp
qed

section \<open>The move\<close>




text \<open>
  C7. When \<open>organize_file\<close> reaches the move and \<open>shutil.move\<close> raises, the method returns
  normally, the error is printed after the \<open>Organizing\<close> line, the file system is the one
  the move started in, and a source path that named something when the method was called
  still names the same thing.
\<close>

theorem move_error_is_caught:
  assumes "organize_until_move w file_path = Inr (w1, src, dest)"
    and "shutil_move (file_system w1) src (os_path_join dest (basename src)) = Inl e"
  shows "organize_file w file_path
           = (None, w\<lparr>stdout := stdout w @ [Organizing file_path, ErrorMoving file_path e],
                      file_system := file_system w1\<rparr>)
         \<and> (stat (file_system w) file_path = Some n \<longrightarrow>
               stat (file_system (snd (organize_file w file_path))) file_path = Some n)"
proof -
  obtain base fs1 where l: "makedirs_loop (file_system w) base folders = (None, fs1)"
    and w1: "w1 = w\<lparr>stdout := stdout w @ [Organizing file_path], file_system := fs1\<rparr>"
    and s: "src = file_path"
    using organize_until_move_Inr [OF assms(1)] by blast
  have 1: "organize_file w file_path
           = (None, w\<lparr>stdout := stdout w @ [Organizing file_path, ErrorMoving file_path e],
                      file_system := file_system w1\<rparr>)"
    using assms s w1 by (simp add: organize_file_def move_step_def)
  have "grows (file_system w) fs1" using l by (rule makedirs_loop_grows)
  then have "stat (file_system w) file_path = Some n \<longrightarrow> stat fs1 file_path = Some n"
    unfolding grows_def by (metis option.distinct(1))
  then show ?thesis using 1 w1 by simp
qed

theorem move_error_is_caught_witness:
  "organize_until_move
       ((init_world [(''R'', Dir), (''R/foo'', File 7), (''R/others'', Dir), (''R/others/foo'', Dir),
                     (''R/others/foo/foo'', File 9)])\<lparr>base_folder := Some ''R''\<rparr>) ''R/foo''
     = Inr (\<lparr>base_folder = Some ''R'', progress_bars = [0, 0, 0, 0, 0, 0, 0, 0],
             file_system = [(''R'', Dir), (''R/foo'', File 7), (''R/others'', Dir),
               (''R/others/foo'', Dir), (''R/others/foo/foo'', File 9), (''R/images'', Dir),
               (''R/videos'', Dir), (''R/audio'', Dir), (''R/documents'', Dir),
               (''R/spreadsheets'', Dir), (''R/archives'', Dir), (''R/software'', Dir)],
             stdout = [Organizing ''R/foo'']\<rparr>, ''R/foo'', ''R/others'')
   \<and> fst (organize_file
       ((init_world [(''R'', Dir), (''R/foo'', File 7), (''R/others'', Dir), (''R/others/foo'', Dir),
                     (''R/others/foo/foo'', File 9)])\<lparr>base_folder := Some ''R''\<rparr>) ''R/foo'') = None
   \<and> stdout (snd (organize_file
       ((init_world [(''R'', Dir), (''R/foo'', File 7), (''R/others'', Dir), (''R/others/foo'', Dir),
                     (''R/others/foo/foo'', File 9)])\<lparr>base_folder := Some ''R''\<rparr>) ''R/foo''))
       = [Organizing ''R/foo'', ErrorMoving ''R/foo'' ShutilError]
   \<and> stat (file_system (snd (organize_file
       ((init_world [(''R'', Dir), (''R/foo'', File 7), (''R/others'', Dir), (''R/others/foo'', Dir),
                     (''R/others/foo/foo'', File 9)])\<lparr>base_folder := Some ''R''\<rparr>) ''R/foo''))) ''R/foo''
       = Some (File 7)"
proof -
  let ?w = "(init_world [(''R'', Dir), (''R/foo'', File 7), (''R/others'', Dir), (''R/others/foo'', Dir),
                     (''R/others/foo/foo'', File 9)])\<lparr>base_folder := Some ''R''\<rparr>"
  let ?fs1 = "[(''R'', Dir), (''R/foo'', File 7), (''R/others'', Dir),
               (''R/others/foo'', Dir), (''R/others/foo/foo'', File 9), (''R/images'', Dir),
               (''R/videos'', Dir), (''R/audio'', Dir), (''R/documents'', Dir),
               (''R/spreadsheets'', Dir), (''R/archives'', Dir), (''R/software'', Dir)]"
  let ?w1 = "\<lparr>base_folder = Some ''R'', progress_bars = [0, 0, 0, 0, 0, 0, 0, 0],
             file_system = ?fs1, stdout = [Organizing ''R/foo'']\<rparr>"
  have h1: "organize_until_move ?w ''R/foo'' = Inr (?w1, ''R/foo'', ''R/others'')"
    by code_simp
  have h2: "shutil_move (file_system ?w1) ''R/foo'' (os_path_join ''R/others'' (basename ''R/foo''))
              = Inl ShutilError"
    by code_simp
  have h3: "stat (file_system ?w) ''R/foo'' = Some (File 7)"
    by code_simp
  note t = move_error_is_caught [OF h1 h2, of "File 7"]
  have a: "fst (organize_file ?w ''R/foo'') = None"
    using t by simp
  have b: "stdout (snd (organize_file ?w ''R/foo''))
             = [Organizing ''R/foo'', ErrorMoving ''R/foo'' ShutilError]"
    using t by (simp add: init_world_def)
  have c: "stat (file_system (snd (organize_file ?w ''R/foo''))) ''R/foo'' = Some (File 7)"
    using t h3 by blast
  show ?thesis using h1 a b c by blast
qed

section \<open>No root folder\<close>

text \<open>
  C8 (as amended). A timer tick that arrives while no root folder is configured changes
  nothing and raises nothing: \<open>update_folder_counts\<close> returns at once, without printing.
\<close>

theorem tick_without_root_is_silent:
  assumes "base_folder w = None"
  shows "update_folder_counts w = (None, w)"
  using assms by (simp add: update_folder_counts_def)

theorem tick_without_root_is_silent_witness:
  "base_folder (init_world [(''R'', Dir)]) = None
   \<and> update_folder_counts (init_world [(''R'', Dir)]) = (None, init_world [(''R'', Dir)])"
proof -
  have h: "base_folder (init_world [(''R'', Dir)]) = None" by (simp add: init_world_def)
  show ?thesis using h tick_without_root_is_silent [OF h] by simp
qed

text \<open>
  \<open>organize_file\<close> has no such test: with no root folder it prints the \<open>Organizing\<close> line and
  then \<open>os.path.join(None, ...)\<close> raises \<open>TypeError\<close>, outside the \<open>try\<close>. And the tick prints
  no warning.
\<close>

theorem organize_without_root_counterexample:
  "base_folder (init_world [(''R'', Dir), (''R/a.jpg'', File 1)]) = None
   \<and> organize_file (init_world [(''R'', Dir), (''R/a.jpg'', File 1)]) ''R/a.jpg''
      = (Some TypeError, (init_world [(''R'', Dir), (''R/a.jpg'', File 1)])\<lparr>stdout := [Organizing ''R/a.jpg'']\<rparr>)
   \<and> stdout (snd (update_folder_counts (init_world [(''R'', Dir), (''R/a.jpg'', File 1)]))) = []"
  by code_simp

section \<open>The item counts\<close>

lemma length_new_bars: "length (new_bars disk base bars xs) = length bars"
  unfolding new_bars_def by (induction xs arbitrary: bars) (auto split: prod.splits)

lemma count_folder_ok:
  assumes "i < length (progress_bars w)"
    and "\<forall>x. stat (file_system w) (os_path_join base folder) \<noteq> Some (File x)"
  shows "count_folder w base i folder
           = (None, w\<lparr>progress_bars := new_bars (file_system w) base (progress_bars w) [(i, folder)]\<rparr>)"
proof (cases "stat (file_system w) (os_path_join base folder)")
  case None
  then show ?thesis
    by (simp add: count_folder_def os_path_exists_def os_path_isdir_def new_bars_def)
next
  case (Some n)
  then have "n = Dir" using assms(2) by (cases n) auto
  then show ?thesis using Some assms(1)
    by (simp add: count_folder_def os_path_exists_def os_path_isdir_def new_bars_def os_listdir_def)
qed

lemma count_loop_ok:
  assumes "\<forall>(i, folder) \<in> set xs. i < length (progress_bars w)
             \<and> (\<forall>x. stat (file_system w) (os_path_join base folder) \<noteq> Some (File x))"
  shows "count_loop w base xs
           = (None, w\<lparr>progress_bars := new_bars (file_system w) base (progress_bars w) xs\<rparr>)"
  using assms
proof (induction xs arbitrary: w)
  case Nil
  then show ?case by (simp add: new_bars_def)
next
  case (Cons a xs)
  obtain i folder where a: "a = (i, folder)" by (cases a)
  let ?w' = "w\<lparr>progress_bars := new_bars (file_system w) base (progress_bars w) [(i, folder)]\<rparr>"
  have 1: "count_folder w base i folder = (None, ?w')"
    using Cons.prems a by (intro count_folder_ok) auto
  have "\<forall>(i, folder) \<in> set xs. i < length (progress_bars ?w')
             \<and> (\<forall>x. stat (file_system ?w') (os_path_join base folder) \<noteq> Some (File x))"
    using Cons.prems by (auto simp: length_new_bars)
  then have "count_loop ?w' base xs
           = (None, ?w'\<lparr>progress_bars := new_bars (file_system ?w') base (progress_bars ?w') xs\<rparr>)"
    by (rule Cons.IH)
  then show ?case using 1 a by (simp add: new_bars_def)
qed

lemma new_bars_other:
  "j \<notin> fst ` set xs \<Longrightarrow> new_bars disk base bars xs ! j = bars ! j"
  unfolding new_bars_def by (induction xs arbitrary: bars) (auto split: prod.splits)

lemma new_bars_nth:
  assumes "distinct (map fst xs)" "(i, folder) \<in> set xs" "i < length bars"
  shows "new_bars disk base bars xs ! i =
           (if os_path_isdir disk (os_path_join base folder)
            then length (remdups (filter (is_entry_of (os_path_join base folder)) (map fst disk)))
            else bars ! i)"
  using assms
proof (induction xs arbitrary: bars)
  case Nil
  then show ?case by simp
next
  case (Cons a xs)
  obtain i' folder' where a: "a = (i', folder')" by (cases a)
  let ?bars' = "new_bars disk base bars [(i', folder')]"
  have step: "new_bars disk base bars (a # xs) = new_bars disk base ?bars' xs"
    using a by (simp add: new_bars_def)
  show ?case
  proof (cases "(i, folder) = (i', folder')")
    case True
    then have "i \<notin> fst ` set xs" using Cons.prems(1) a by auto
    then have "new_bars disk base ?bars' xs ! i = ?bars' ! i" by (rule new_bars_other)
    then show ?thesis using step True Cons.prems(3) by (simp add: new_bars_def)
  next
    case False
    then have mem: "(i, folder) \<in> set xs" using Cons.prems(2) a by auto
    then have ne: "i \<noteq> i'" using Cons.prems(1) a by force
    have "new_bars disk base ?bars' xs ! i =
           (if os_path_isdir disk (os_path_join base folder)
            then length (remdups (filter (is_entry_of (os_path_join base folder)) (map fst disk)))
            else ?bars' ! i)"
      using Cons.prems Cons.IH [of ?bars'] mem by (simp add: length_new_bars)
    moreover have "?bars' ! i = bars ! i" using ne by (simp add: new_bars_def)
    ultimately show ?thesis using step by simp
  qed
qed

text \<open>
  C9 (as amended). Let a root be configured, let there be one widget per category, and let
  no category path be a regular file. Then \<open>update_folder_counts\<close> returns normally and
  changes nothing but the counts: the count of a category whose folder is a directory becomes
  the number of immediate entries of that folder (entries further down are not counted), and
  the count of a category whose folder does not exist keeps its previous value.
\<close>

theorem update_folder_counts_counts:
  assumes "base_folder w = Some base" and "base \<noteq> []"
    and "length (progress_bars w) = length folders"
    and "\<forall>folder \<in> set folders. \<forall>x. stat (file_system w) (os_path_join base folder) \<noteq> Some (File x)"
  shows "\<exists>bars. update_folder_counts w = (None, w\<lparr>progress_bars := bars\<rparr>)
           \<and> length bars = length folders
           \<and> (\<forall>i < length folders. bars ! i =
                 (if os_path_isdir (file_system w) (os_path_join base (folders ! i))
                  then card {k \<in> fst ` set (file_system w).
                               is_entry_of (os_path_join base (folders ! i)) k}
                  else progress_bars w ! i))"
proof -
  let ?xs = "enumerate 0 folders"
  let ?bars = "new_bars (file_system w) base (progress_bars w) ?xs"
  have pre: "\<forall>(i, folder) \<in> set ?xs. i < length (progress_bars w)
             \<and> (\<forall>x. stat (file_system w) (os_path_join base folder) \<noteq> Some (File x))"
    using assms(3,4) by (auto simp: in_set_enumerate_eq)
  have 1: "update_folder_counts w = (None, w\<lparr>progress_bars := ?bars\<rparr>)"
    using assms(1,2) count_loop_ok [OF pre] by (simp add: update_folder_counts_def)
  have 2: "length ?bars = length folders"
    using assms(3) by (simp add: length_new_bars)
  have 3: "?bars ! i =
                 (if os_path_isdir (file_system w) (os_path_join base (folders ! i))
                  then card {k \<in> fst ` set (file_system w).
                               is_entry_of (os_path_join base (folders ! i)) k}
                  else progress_bars w ! i)" if "i < length folders" for i
  proof -
    have d: "distinct (map fst ?xs)" by (simp add: map_fst_enumerate)
    have m: "(i, folders ! i) \<in> set ?xs" using that by (simp add: in_set_enumerate_eq)
    have c: "length (remdups (filter (is_entry_of p) (map fst (file_system w))))
               = card {k \<in> fst ` set (file_system w). is_entry_of p k}" for p
      by (simp add: length_remdups_card_conv)
    show ?thesis
      using new_bars_nth [OF d m, of "progress_bars w" "file_system w" base] that assms(3)
      by (simp add: c)
  qed
  show ?thesis using 1 2 3 by blast
qed

theorem update_folder_counts_counts_witness:
  "fst (update_folder_counts
      ((init_world [(''R'', Dir), (''R/images'', Dir), (''R/others'', Dir),
                    (''R/images/photo.jpg'', File 7), (''R/images/sub'', Dir),
                    (''R/images/sub/deep.png'', File 8)])\<lparr>base_folder := Some ''R''\<rparr>)) = None
   \<and> progress_bars (snd (update_folder_counts
      ((init_world [(''R'', Dir), (''R/images'', Dir), (''R/others'', Dir),
                    (''R/images/photo.jpg'', File 7), (''R/images/sub'', Dir),
                    (''R/images/sub/deep.png'', File 8)])\<lparr>base_folder := Some ''R''\<rparr>)))
      = [2, 0, 0, 0, 0, 0, 0, 0]
   \<and> file_system (snd (update_folder_counts
      ((init_world [(''R'', Dir), (''R/images'', Dir), (''R/others'', Dir),
                    (''R/images/photo.jpg'', File 7), (''R/images/sub'', Dir),
                    (''R/images/sub/deep.png'', File 8)])\<lparr>base_folder := Some ''R''\<rparr>)))
      = [(''R'', Dir), (''R/images'', Dir), (''R/others'', Dir),
                    (''R/images/photo.jpg'', File 7), (''R/images/sub'', Dir),
                    (''R/images/sub/deep.png'', File 8)]
   \<and> card {k \<in> fst ` set [(''R'', Dir), (''R/images'', Dir), (''R/others'', Dir),
                    (''R/images/photo.jpg'', File 7), (''R/images/sub'', Dir),
                    (''R/images/sub/deep.png'', File 8)].
              is_entry_of (os_path_join ''R'' (folders ! 0)) k} = 2"
proof -
  let ?fs = "[(''R'', Dir), (''R/images'', Dir), (''R/others'', Dir),
                    (''R/images/photo.jpg'', File 7), (''R/images/sub'', Dir),
                    (''R/images/sub/deep.png'', File 8)]"
  let ?w = "(init_world ?fs)\<lparr>base_folder := Some ''R''\<rparr>"
  have h1: "base_folder ?w = Some ''R''" by simp
  have h2: "''R'' \<noteq> []" by simp
  have h3: "length (progress_bars ?w) = length folders" by (simp add: init_world_def)
  have h4: "\<forall>folder \<in> set folders. \<forall>x. stat (file_system ?w) (os_path_join ''R'' folder) \<noteq> Some (File x)"
    by (simp add: init_world_def folders_def stat_def all_seps_def os_path_join_def sep_def)
  obtain bars where u: "update_folder_counts ?w = (None, ?w\<lparr>progress_bars := bars\<rparr>)"
    and n: "\<forall>i < length folders. bars ! i =
                 (if os_path_isdir (file_system ?w) (os_path_join ''R'' (folders ! i))
                  then card {k \<in> fst ` set (file_system ?w).
                               is_entry_of (os_path_join ''R'' (folders ! i)) k}
                  else progress_bars ?w ! i)"
    using update_folder_counts_counts [OF h1 h2 h3 h4] by blast
  have v: "progress_bars (snd (update_folder_counts ?w)) = [2, 0, 0, 0, 0, 0, 0, 0]"
    by code_simp
  then have b: "bars = [2, 0, 0, 0, 0, 0, 0, 0]" using u by simp
  have d: "os_path_isdir (file_system ?w) (os_path_join ''R'' (folders ! 0))" by code_simp
  have "0 < length folders" by (simp add: folders_def)
  then have "bars ! 0 = card {k \<in> fst ` set (file_system ?w).
                               is_entry_of (os_path_join ''R'' (folders ! 0)) k}"
    using n d by presburger
  then have c: "card {k \<in> fst ` set ?fs. is_entry_of (os_path_join ''R'' (folders ! 0)) k} = 2"
    using b by (simp add: init_world_def)
  have f: "file_system (snd (update_folder_counts ?w)) = ?fs"
    using u by (simp add: init_world_def)
  have r: "fst (update_folder_counts ?w) = None" using u by simp
  show ?thesis using r v f c by blast
qed

text \<open>
  The count of a missing folder is not reset to 0: after three images were counted and the
  \<open>images\<close> folder was removed, the next refresh still shows 3. And where \<open>root/images\<close> is
  a regular file, \<open>os.path.exists\<close> holds, \<open>os.listdir\<close> raises \<open>NotADirectoryError\<close>, and the
  refresh ends there.
\<close>

theorem stale_count_counterexample:
  "progress_bars (snd (update_folder_counts
      ((init_world [(''R'', Dir), (''R/images'', Dir), (''R/images/a.png'', File 1),
                    (''R/images/b.png'', File 2), (''R/images/c.png'', File 3)])
         \<lparr>base_folder := Some ''R''\<rparr>)))
     = [3, 0, 0, 0, 0, 0, 0, 0]
   \<and> os_path_exists [(''R'', Dir)] (os_path_join ''R'' ''images'') = False
   \<and> update_folder_counts
       \<lparr>base_folder = Some ''R'', progress_bars = [3, 0, 0, 0, 0, 0, 0, 0],
        file_system = [(''R'', Dir)], stdout = []\<rparr>
     = (None, \<lparr>base_folder = Some ''R'', progress_bars = [3, 0, 0, 0, 0, 0, 0, 0],
               file_system = [(''R'', Dir)], stdout = []\<rparr>)
   \<and> stat [(''R'', Dir), (''R/images'', File 5)] (os_path_join ''R'' ''images'') = Some (File 5)
   \<and> update_folder_counts
       ((init_world [(''R'', Dir), (''R/images'', File 5)])\<lparr>base_folder := Some ''R''\<rparr>)
     = (Some NotADirectoryError,
        (init_world [(''R'', Dir), (''R/images'', File 5)])\<lparr>base_folder := Some ''R''\<rparr>)"
  by code_simp

section \<open>Creating the category directories once\<close>





















end
